theory Spec2Isabelle
  imports Complex_Main
begin

section \<open>Data model of cursor-effect.js\<close>

text \<open>
  The script animates bursts of particles on a canvas.  JavaScript numbers are modelled
  as mathematical reals (\<^typ>\<open>real\<close>), so \<open>Math.sin\<close>, \<open>Math.cos\<close>, \<open>Math.PI\<close> and
  \<open>Math.floor\<close> are \<^const>\<open>sin\<close>, \<^const>\<open>cos\<close>, \<^const>\<open>pi\<close> and \<^const>\<open>floor\<close>, and the
  literal \<open>0.3\<close> is the rational \<open>3/10\<close>: every operation is exact.  The rounding of IEEE
  double arithmetic is modelled separately, for \<open>Circle.move\<close>, in the subsection on
  double arithmetic.  Counters that the code only initialises with an integer literal and
  increments (\<open>renderCount\<close>, loop indices, \<open>circleCount\<close>) are natural numbers or
  integers.  The drawing context and the pixels written by \<open>draw\<close> are not modelled:
  \<open>draw\<close> changes no field of a particle, a burst or the controller.

  A result of type \<open>'a option\<close> is \<open>None\<close> where the JavaScript would throw a
  \<open>TypeError\<close> (a method call on \<open>undefined\<close> after an out-of-range array read).
\<close>

record point =
  point_x :: real
  point_y :: real

record area =
  width :: real
  height :: real

text \<open>class \<open>Circle\<close>: one particle.\<close>

record Circle =
  origin :: point
  position :: point
  color :: string
  speed :: real
  angle :: real
  renderCount :: nat

text \<open>
  \<open>Circle.constructor\<close>: \<open>origin\<close> is a copy of the argument and \<open>position\<close> a copy
  of \<open>origin\<close>, so no two particles share a point object.
\<close>

definition Circle_new :: "point \<Rightarrow> real \<Rightarrow> string \<Rightarrow> real \<Rightarrow> Circle" where
  "Circle_new origin0 speed0 color0 angle0 =
     \<lparr> origin = origin0, position = origin0, color = color0,
       speed = speed0, angle = angle0, renderCount = 0 \<rparr>"

text \<open>\<open>Circle.move\<close> (lines 32-36).\<close>

definition Circle_move :: "Circle \<Rightarrow> Circle" where
  "Circle_move c =
     c \<lparr> position :=
           \<lparr> point_x = point_x (position c) + sin (angle c) * speed c,
             point_y = point_y (position c)
                        + (cos (angle c) * speed c + real (renderCount c) * 0.3) \<rparr>,
         renderCount := renderCount c + 1 \<rparr>"

text \<open>class \<open>Boom\<close>: one burst.\<close>

record Boom =
  boom_origin :: point
  circleCount :: nat
  area :: area
  stop :: bool
  circles :: "Circle list"

text \<open>
  \<open>Boom.constructor\<close>: the parameter \<open>circleCount\<close> defaults to 10 when it is omitted
  (\<open>None\<close>).
\<close>

definition Boom_new :: "point \<Rightarrow> nat option \<Rightarrow> area \<Rightarrow> Boom" where
  "Boom_new origin0 circleCount0 area0 =
     \<lparr> boom_origin = origin0,
       circleCount = (case circleCount0 of None \<Rightarrow> 10 | Some k \<Rightarrow> k),
       area = area0, stop = False, circles = [] \<rparr>"

subsection \<open>Random numbers\<close>

text \<open>
  \<open>Math.random\<close> is a source of draws: \<open>rnd k\<close> is the value returned by the \<open>k\<close>-th
  call, and every function that draws takes the number of calls made so far and returns
  it updated.
\<close>

type_synonym random = "nat \<Rightarrow> real"

definition unit_draws :: "random \<Rightarrow> bool" where
  "unit_draws rnd \<longleftrightarrow> (\<forall>k. 0 \<le> rnd k \<and> rnd k < 1)"

text \<open>
  \<open>#randomArray\<close> (line 59): an array read outside \<open>0 .. length - 1\<close> gives
  \<open>undefined\<close>, here \<open>None\<close>.
\<close>

definition randomIndex :: "'a list \<Rightarrow> real \<Rightarrow> int" where
  "randomIndex range0 r = \<lfloor>real (length range0) * r\<rfloor>"

definition randomArray :: "'a list \<Rightarrow> real \<Rightarrow> 'a option" where
  "randomArray range0 r =
     (let i = randomIndex range0 r
      in if 0 \<le> i \<and> i < int (length range0) then Some (range0 ! nat i) else None)"

definition palette :: "string list" where
  "palette = [''8'', ''9'', ''A'', ''B'', ''C'', ''D'', ''E'', ''F'']"

text \<open>
  \<open>#randomColor\<close> (lines 63-66): six picks, in order, joined after a \<open>#\<close>.
  \<open>Array.prototype.join\<close> writes an \<open>undefined\<close> element as the empty string.
\<close>

definition colorPicks :: "random \<Rightarrow> nat \<Rightarrow> string option list" where
  "colorPicks rnd n = map (\<lambda>j. randomArray palette (rnd (n + j))) [0..<6]"

definition join_elem :: "string option \<Rightarrow> string" where
  "join_elem e = (case e of None \<Rightarrow> [] | Some s \<Rightarrow> s)"

definition randomColor :: "random \<Rightarrow> nat \<Rightarrow> string \<times> nat" where
  "randomColor rnd n = (CHR ''#'' # concat (map join_elem (colorPicks rnd n)), n + 6)"

text \<open>\<open>#randomRange\<close> (line 70).\<close>

definition randomRange :: "real \<Rightarrow> real \<Rightarrow> real \<Rightarrow> real" where
  "randomRange start0 end0 r = (end0 - start0) * r + start0"

subsection \<open>Burst initialisation and step\<close>

text \<open>
  The particle pushed by one iteration of the loop of \<open>Boom.init\<close> (lines 76-82): the
  object literal evaluates \<open>color\<close>, \<open>angle\<close> and \<open>speed\<close> in this order, which takes
  eight draws.
\<close>

definition init_circle :: "random \<Rightarrow> nat \<Rightarrow> Boom \<Rightarrow> Circle \<times> nat" where
  "init_circle rnd n b =
     (let (col, n1) = randomColor rnd n;
          ang = randomRange (pi - 1) (pi + 1) (rnd n1);
          spd = randomRange 1 6 (rnd (n1 + 1))
      in (Circle_new (boom_origin b) spd col ang, n1 + 2))"

text \<open>The loop \<open>for (let i = 0; i < this.circleCount; i++)\<close> of \<open>Boom.init\<close>.\<close>

function init_loop :: "random \<Rightarrow> nat \<Rightarrow> nat \<times> Boom \<Rightarrow> nat \<times> Boom" where
  "init_loop rnd i (n, b) =
     (if i < circleCount b
      then (let (c, n') = init_circle rnd n b
            in init_loop rnd (i + 1) (n', b \<lparr> circles := circles b @ [c] \<rparr>))
      else (n, b))"
  by pat_completeness auto
termination
  by (relation "measure (\<lambda>(rnd, i, n, b). circleCount b - i)")
     (auto split: prod.splits)

definition Boom_init :: "random \<Rightarrow> nat \<times> Boom \<Rightarrow> nat \<times> Boom" where
  "Boom_init rnd s = init_loop rnd 0 s"

text \<open>The removal test of \<open>Boom.move\<close> (lines 93-95).\<close>

definition out_of_area :: "area \<Rightarrow> Circle \<Rightarrow> bool" where
  "out_of_area a c \<longleftrightarrow>
     point_x (position c) < 0 \<or> point_x (position c) > width a
     \<or> point_y (position c) > height a"

text \<open>\<open>Array.prototype.splice(i, 1)\<close> for an index \<open>i \<ge> 0\<close>.\<close>

definition splice1 :: "nat \<Rightarrow> 'a list \<Rightarrow> 'a list" where
  "splice1 i xs = take i xs @ drop (i + 1) xs"

text \<open>
  The loop \<open>for (let i = this.circles.length - 1; i >= 0; i--)\<close> of \<open>Boom.move\<close>
  (lines 88-98), entered with the current value of \<open>i\<close>.  The particle is an object, so
  moving it updates the array element in place.
\<close>

function move_loop :: "area \<Rightarrow> int \<Rightarrow> Circle list \<Rightarrow> Circle list option" where
  "move_loop a i cs =
     (if i \<ge> 0
      then (if nat i < length cs
            then (let circle = Circle_move (cs ! nat i);
                      cs' = cs [nat i := circle]
                  in if out_of_area a circle
                     then move_loop a (i - 1) (splice1 (nat i) cs')
                     else move_loop a (i - 1) cs')
            else None)
      else Some cs)"
  by pat_completeness auto
termination
  by (relation "measure (\<lambda>(a, i, cs). nat (i + 1))") auto

declare move_loop.simps [simp del]

definition Boom_move :: "Boom \<Rightarrow> Boom option" where
  "Boom_move b =
     (case move_loop (area b) (int (length (circles b)) - 1) (circles b) of
        None \<Rightarrow> None
      | Some cs \<Rightarrow> Some (b \<lparr> circles := cs, stop := (length cs = 0) \<rparr>))"

text \<open>\<open>n\<close> successive calls of \<open>move\<close>.\<close>

primrec Circle_moves :: "nat \<Rightarrow> Circle \<Rightarrow> Circle" where
  "Circle_moves 0 c = c"
| "Circle_moves (Suc n) c = Circle_moves n (Circle_move c)"

primrec Boom_moves :: "nat \<Rightarrow> Boom \<Rightarrow> Boom option" where
  "Boom_moves 0 b = Some b"
| "Boom_moves (Suc n) b = Option.bind (Boom_move b) (Boom_moves n)"

subsection \<open>Double arithmetic\<close>

text \<open>
  A JavaScript number is an IEEE 754 binary64 value, and every \<open>+\<close> and \<open>*\<close> returns the
  double nearest to the exact result, ties going to the even significand.  The finite
  doubles are modelled as the reals they denote (\<open>-0\<close> is \<open>0\<close>).  \<open>round_even\<close> rounds
  to the nearest integer, ties to even.
\<close>

definition round_even :: "real \<Rightarrow> int" where
  "round_even x =
     (let f = \<lfloor>x\<rfloor>
      in if x - of_int f < 1 / 2 then f
         else if x - of_int f > 1 / 2 then f + 1
         else if even f then f else f + 1)"

text \<open>
  The distance between neighbouring doubles around \<open>x \<noteq> 0\<close>: the significand has 53
  bits, and below \<open>2^-1022\<close> (the subnormal range) the distance stays \<open>2^-1074\<close>.
\<close>

definition quantum :: "real \<Rightarrow> real" where
  "quantum x = 2 powi (max \<lfloor>log 2 \<bar>x\<bar>\<rfloor> (- 1022) - 52)"

text \<open>
  The double that an exact result \<open>x\<close> is rounded to.  From \<open>2^1024 - 2^970\<close>, half-way
  between the largest double and \<open>2^1024\<close>, the result is \<open>Infinity\<close>, which is \<open>None\<close>
  here: the model follows a computation as long as its values are finite.
\<close>

definition binary64 :: "real \<Rightarrow> real option" where
  "binary64 x =
     (if x = 0 then Some 0
      else if \<bar>x\<bar> \<ge> 2 ^ 1024 - 2 ^ 970 then None
      else Some (of_int (round_even (x / quantum x)) * quantum x))"

text \<open>
  ECMAScript leaves the accuracy of \<open>Math.sin\<close> and \<open>Math.cos\<close> to the implementation,
  except at particular arguments: \<open>Math.sin(0)\<close> is \<open>0\<close> and \<open>Math.cos(0)\<close> is \<open>1\<close>.  The
  model takes the correctly rounded value.
\<close>

definition Math_sin :: "real \<Rightarrow> real option" where
  "Math_sin x = binary64 (sin x)"

definition Math_cos :: "real \<Rightarrow> real option" where
  "Math_cos x = binary64 (cos x)"

text \<open>
  \<open>Circle.move\<close> (lines 32-36) in double arithmetic, for a particle whose fields are
  doubles: each product and each sum is rounded, the literal \<open>0.3\<close> is the double nearest
  to \<open>3/10\<close>, and \<open>renderCount++\<close> is exact up to \<open>2^53\<close>, where \<open>2^53 + 1\<close> rounds back to
  \<open>2^53\<close>.
\<close>

definition Circle_move64 :: "Circle \<Rightarrow> Circle option" where
  "Circle_move64 c =
     Option.bind (Math_sin (angle c)) (\<lambda>s.
     Option.bind (binary64 (s * speed c)) (\<lambda>dx.
     Option.bind (binary64 (point_x (position c) + dx)) (\<lambda>x'.
     Option.bind (Math_cos (angle c)) (\<lambda>co.
     Option.bind (binary64 (co * speed c)) (\<lambda>cs.
     Option.bind (binary64 (3 / 10)) (\<lambda>k.
     Option.bind (binary64 (real (renderCount c) * k)) (\<lambda>g.
     Option.bind (binary64 (cs + g)) (\<lambda>dy.
     Option.bind (binary64 (point_y (position c) + dy)) (\<lambda>y'.
       Some (c \<lparr> position := \<lparr> point_x = x', point_y = y' \<rparr>,
                 renderCount := (if renderCount c < 2 ^ 53 then renderCount c + 1
                                 else renderCount c) \<rparr>))))))))))"

primrec Circle_moves64 :: "nat \<Rightarrow> Circle \<Rightarrow> Circle option" where
  "Circle_moves64 0 c = Some c"
| "Circle_moves64 (Suc n) c = Option.bind (Circle_move64 c) (Circle_moves64 n)"

subsection \<open>The controller and the browser\<close>

text \<open>
  A canvas is modelled by its two size attributes, which hold what \<open>handleResize\<close>
  assigns to them.
\<close>

record canvas =
  canvas_width :: real
  canvas_height :: real

text \<open>
  class \<open>CursorSpecialEffects\<close>.  \<open>animationId\<close> is \<open>None\<close> for \<open>null\<close> and
  \<open>Some h\<close> for the handle \<open>h\<close>.
\<close>

record CursorSpecialEffects =
  computerCanvas :: canvas
  renderCanvas :: canvas
  globalWidth :: real
  globalHeight :: real
  booms :: "Boom list"
  running :: bool
  animationId :: "nat option"

text \<open>
  The browser around the one controller instance of the page: the window size, the
  animation frame callbacks that are outstanding (all of them are \<open>this.run\<close>, so a
  callback is its handle), the animation frame callback identifier, and the number of
  \<open>Math.random\<close> calls made so far.
\<close>

record browser =
  effects :: CursorSpecialEffects
  innerWidth :: real
  innerHeight :: real
  callbacks :: "nat list"
  callback_id :: nat
  random_calls :: nat

text \<open>
  \<open>requestAnimationFrame\<close> increments the identifier, registers the callback under it
  and returns it, so a handle is never 0; \<open>cancelAnimationFrame\<close> removes the callback
  registered under a handle, if there is one.
\<close>

definition requestAnimationFrame :: "browser \<Rightarrow> nat \<times> browser" where
  "requestAnimationFrame w =
     (let h = callback_id w + 1
      in (h, w \<lparr> callback_id := h, callbacks := callbacks w @ [h] \<rparr>))"

definition cancelAnimationFrame :: "nat \<Rightarrow> browser \<Rightarrow> browser" where
  "cancelAnimationFrame h w = w \<lparr> callbacks := removeAll h (callbacks w) \<rparr>"

text \<open>
  \<open>stopAnimation\<close> (lines 170-176): \<open>if (this.animationId)\<close> holds for a handle other
  than 0.
\<close>

definition stopAnimation :: "browser \<Rightarrow> browser" where
  "stopAnimation w =
     (let w1 = (case animationId (effects w) of
                  None \<Rightarrow> w
                | Some h \<Rightarrow>
                    if h \<noteq> 0
                    then (let w' = cancelAnimationFrame h w
                          in w' \<lparr> effects := (effects w') \<lparr> animationId := None \<rparr> \<rparr>)
                    else w)
      in w1 \<lparr> effects := (effects w1) \<lparr> running := False \<rparr> \<rparr>)"

text \<open>
  The loop \<open>for (let i = this.booms.length - 1; i >= 0; i--)\<close> of \<open>run\<close>
  (lines 214-222), entered with the current value of \<open>i\<close>.
\<close>

function run_loop :: "int \<Rightarrow> Boom list \<Rightarrow> Boom list option" where
  "run_loop i bs =
     (if i \<ge> 0
      then (if nat i < length bs
            then (let boom = bs ! nat i
                  in if stop boom
                     then run_loop (i - 1) (splice1 (nat i) bs)
                     else (case Boom_move boom of
                             None \<Rightarrow> None
                           | Some boom' \<Rightarrow> run_loop (i - 1) (bs [nat i := boom'])))
            else None)
      else Some bs)"
  by pat_completeness auto
termination
  by (relation "measure (\<lambda>(i, bs). nat (i + 1))") auto

declare run_loop.simps [simp del]

text \<open>\<open>run\<close> (lines 199-230); \<open>clearRect\<close> and \<open>drawImage\<close> only write pixels.\<close>

definition run :: "browser \<Rightarrow> browser option" where
  "run w =
     (let w1 = w \<lparr> effects := (effects w) \<lparr> running := True \<rparr> \<rparr>
      in if length (booms (effects w1)) = 0
         then Some (stopAnimation w1)
         else (let (h, w2) = requestAnimationFrame w1;
                   w3 = w2 \<lparr> effects := (effects w2) \<lparr> animationId := Some h \<rparr> \<rparr>
               in case run_loop (int (length (booms (effects w3))) - 1) (booms (effects w3)) of
                    None \<Rightarrow> None
                  | Some bs \<Rightarrow> Some (w3 \<lparr> effects := (effects w3) \<lparr> booms := bs \<rparr> \<rparr>)))"

text \<open>\<open>handleMouseDown\<close> (lines 134-149) for a press at \<open>(clientX, clientY)\<close>.\<close>

definition handleMouseDown :: "random \<Rightarrow> real \<Rightarrow> real \<Rightarrow> browser \<Rightarrow> browser option" where
  "handleMouseDown rnd clientX clientY w =
     (let boom0 = Boom_new \<lparr> point_x = clientX, point_y = clientY \<rparr> None
                    \<lparr> width = globalWidth (effects w), height = globalHeight (effects w) \<rparr>;
          (n, boom) = Boom_init rnd (random_calls w, boom0);
          w1 = w \<lparr> random_calls := n,
                   effects := (effects w) \<lparr> booms := booms (effects w) @ [boom] \<rparr> \<rparr>
      in if \<not> running (effects w1) then run w1 else Some w1)"

text \<open>\<open>handlePageHide\<close> (lines 152-155).\<close>

definition handlePageHide :: "browser \<Rightarrow> browser" where
  "handlePageHide w = stopAnimation (w \<lparr> effects := (effects w) \<lparr> booms := [] \<rparr> \<rparr>)"

text \<open>\<open>handleResize\<close> (lines 158-167).\<close>

definition handleResize :: "browser \<Rightarrow> browser" where
  "handleResize w =
     (let e1 = (effects w) \<lparr> globalWidth := innerWidth w, globalHeight := innerHeight w \<rparr>;
          dims = \<lparr> canvas_width = globalWidth e1, canvas_height = globalHeight e1 \<rparr>
      in w \<lparr> effects := e1 \<lparr> renderCanvas := dims, computerCanvas := dims \<rparr> \<rparr>)"

text \<open>
  The page after the script has run (lines 109-128, 179-196, 234-240): the constructor
  followed by \<open>init\<close>, which calls \<open>handleResize\<close>, in a window of the given size.  A
  new canvas element is 300 by 150.
\<close>

definition page_loaded :: "real \<Rightarrow> real \<Rightarrow> nat \<Rightarrow> nat \<Rightarrow> browser" where
  "page_loaded w0 h0 id0 n0 =
     handleResize
       \<lparr> effects =
           \<lparr> computerCanvas = \<lparr> canvas_width = 300, canvas_height = 150 \<rparr>,
             renderCanvas = \<lparr> canvas_width = 300, canvas_height = 150 \<rparr>,
             globalWidth = w0, globalHeight = h0,
             booms = [], running = False, animationId = None \<rparr>,
         innerWidth = w0, innerHeight = h0,
         callbacks = [], callback_id = id0, random_calls = n0 \<rparr>"

text \<open>
  What the browser does to the page.  An animation frame runs the callbacks that were
  outstanding when it began, in order, each removed from the list before it is invoked; a
  callback cancelled in the meantime is skipped, and one registered in the meantime waits
  for the next frame.
\<close>

fun run_callbacks :: "nat list \<Rightarrow> browser \<Rightarrow> browser option" where
  "run_callbacks [] w = Some w"
| "run_callbacks (h # hs) w =
     (if h \<in> set (callbacks w)
      then (case run (cancelAnimationFrame h w) of
              None \<Rightarrow> None
            | Some w' \<Rightarrow> run_callbacks hs w')
      else run_callbacks hs w)"

definition frame :: "browser \<Rightarrow> browser option" where
  "frame w = run_callbacks (callbacks w) w"

datatype event = MouseDown real real | PageHide | Resize real real | Frame

fun handle_event :: "random \<Rightarrow> event \<Rightarrow> browser \<Rightarrow> browser option" where
  "handle_event rnd (MouseDown clientX clientY) w = handleMouseDown rnd clientX clientY w"
| "handle_event rnd PageHide w = Some (handlePageHide w)"
| "handle_event rnd (Resize w0 h0) w =
     Some (handleResize (w \<lparr> innerWidth := w0, innerHeight := h0 \<rparr>))"
| "handle_event rnd Frame w = frame w"


text \<open>The states of the page that a sequence of events can produce.\<close>

inductive reachable :: "random \<Rightarrow> browser \<Rightarrow> bool" for rnd :: random where
  loaded: "reachable rnd (page_loaded w0 h0 id0 n0)"
| event: "reachable rnd w \<Longrightarrow> handle_event rnd e w = Some w' \<Longrightarrow> reachable rnd w'"

text \<open>The two states of the controller.\<close>

definition Idle :: "browser \<Rightarrow> bool" where
  "Idle w \<longleftrightarrow> \<not> running (effects w) \<and> callbacks w = [] \<and> booms (effects w) = []"

definition Running :: "browser \<Rightarrow> bool" where
  "Running w \<longleftrightarrow>
     running (effects w) \<and>
     (\<exists>h. h \<noteq> 0 \<and> callbacks w = [h] \<and> animationId (effects w) = Some h)"

text \<open>
  The burst that \<open>handleMouseDown\<close> constructs and initialises for a press at
  \<open>(clientX, clientY)\<close> (lines 135-143).
\<close>

definition new_boom :: "random \<Rightarrow> real \<Rightarrow> real \<Rightarrow> browser \<Rightarrow> Boom" where
  "new_boom rnd clientX clientY w =
     snd (Boom_init rnd (random_calls w,
       Boom_new \<lparr> point_x = clientX, point_y = clientY \<rparr> None
         \<lparr> width = globalWidth (effects w), height = globalHeight (effects w) \<rparr>))"

subsection \<open>Closed forms used in the proofs\<close>

text \<open>
  What the loop of \<open>Boom.move\<close> leaves, written without the loop; \<open>Boom_move_moved\<close>
  proves that the loop computes it.
\<close>

definition in_area :: "area \<Rightarrow> Circle \<Rightarrow> bool" where
  "in_area a c \<longleftrightarrow> \<not> out_of_area a c"

definition moved_circles :: "area \<Rightarrow> Circle list \<Rightarrow> Circle list" where
  "moved_circles a cs = filter (in_area a) (map Circle_move cs)"

definition moved :: "Boom \<Rightarrow> Boom" where
  "moved b = b \<lparr> circles := moved_circles (area b) (circles b),
                 stop := (moved_circles (area b) (circles b) = []) \<rparr>"

text \<open>
  What the loop of \<open>run\<close> leaves, written without the loop; \<open>run_loop_all\<close> proves that
  the loop computes it.
\<close>

definition stepped_booms :: "Boom list \<Rightarrow> Boom list" where
  "stepped_booms bs = map moved (filter (\<lambda>b. \<not> stop b) bs)"

section \<open>Particles\<close>

lemma Circle_move_fixed [simp]:
  "origin (Circle_move c) = origin c"
  "color (Circle_move c) = color c"
  "speed (Circle_move c) = speed c"
  "angle (Circle_move c) = angle c"
  "renderCount (Circle_move c) = renderCount c + 1"
  by (simp_all add: Circle_move_def)

lemma Circle_moves_fixed [simp]:
  "origin (Circle_moves n c) = origin c"
  "color (Circle_moves n c) = color c"
  "speed (Circle_moves n c) = speed c"
  "angle (Circle_moves n c) = angle c"
  "renderCount (Circle_moves n c) = renderCount c + n"
  by (induction n arbitrary: c; simp)+

lemma Circle_moves_x:
  "point_x (position (Circle_moves n c))
     = point_x (position c) + real n * (sin (angle c) * speed c)"
  by (induction n arbitrary: c) (simp_all add: Circle_move_def algebra_simps)

lemma Circle_moves_y:
  "point_y (position (Circle_moves n c))
     = point_y (position c) + real n * (cos (angle c) * speed c)
       + 0.3 * (real n * real (renderCount c) + real (\<Sum>k<n. k))"
proof (induction n arbitrary: c)
  case 0
  show ?case by simp
next
  case (Suc n)
  have s: "(\<Sum>k<Suc n. k) = n + (\<Sum>k<n. k)" by simp
  show ?case
    unfolding Circle_moves.simps Suc.IH s
    by (simp add: Circle_move_def algebra_simps)
qed

lemma quantum_binade:
  assumes "2 powi e \<le> \<bar>x\<bar>" and "\<bar>x\<bar> < 2 powi (e + 1)" and "- 1022 \<le> e"
  shows "quantum x = 2 powi (e - 52)"
proof -
  have pos: "0 < \<bar>x\<bar>" using assms(1) by (smt (verit) zero_less_power_int)
  have "2 powr real_of_int e \<le> \<bar>x\<bar>" "\<bar>x\<bar> < 2 powr (real_of_int e + 1)"
    using assms(1,2) powr_real_of_int' [of 2 e] powr_real_of_int' [of 2 "e + 1"] by simp_all
  then have "\<lfloor>log 2 \<bar>x\<bar>\<rfloor> = e"
    using floor_log_eq_powr_iff [OF pos, of 2 e] by simp
  then show ?thesis using assms(3) by (simp add: quantum_def)
qed

lemma binary64_binade:
  assumes "2 powi e \<le> \<bar>x\<bar>" and "\<bar>x\<bar> < 2 powi (e + 1)" and "- 1022 \<le> e" and "e \<le> 1022"
  shows "binary64 x = Some (of_int (round_even (x / 2 powi (e - 52))) * 2 powi (e - 52))"
proof -
  have pos: "0 < \<bar>x\<bar>" using assms(1) by (smt (verit) zero_less_power_int)
  have "(2::real) powi (e + 1) \<le> 2 powi 1023"
    using assms(4) by (intro power_int_increasing) simp_all
  also have "\<dots> < (2::real) ^ 1024 - 2 ^ 970" by simp
  finally have "\<bar>x\<bar> < 2 ^ 1024 - 2 ^ 970" using assms(2) by simp
  with pos show ?thesis
    by (simp add: binary64_def quantum_binade [OF assms(1-3)])
qed

lemma binary64_0 [simp]: "binary64 0 = Some 0"
  by (simp add: binary64_def)

lemma k03: "binary64 (3 / 10) = Some (5404319552844595 / 2 ^ 54)"
  using binary64_binade [of "- 2" "3 / 10"]
  by (simp add: round_even_def)

lemma binary64_1: "binary64 1 = Some 1"
  using binary64_binade [of 0 1] by (simp add: round_even_def)

lemma binary64_2: "binary64 2 = Some 2"
  using binary64_binade [of 1 2] by (simp add: round_even_def)

lemma binary64_100: "binary64 100 = Some 100"
  using binary64_binade [of 6 100] by (simp add: round_even_def)

lemma binary64_102: "binary64 102 = Some 102"
  using binary64_binade [of 6 102] by (simp add: round_even_def)

lemma binary64_k: "binary64 (5404319552844595 / 2 ^ 54) = Some (5404319552844595 / 2 ^ 54)"
  using binary64_binade [of "- 2" "5404319552844595 / 2 ^ 54"] by (simp add: round_even_def)

lemma binary64_2k:
  "binary64 (2 + 5404319552844595 / 2 ^ 54) = Some (2 + 675539944105574 / 2 ^ 51)"
  using binary64_binade [of 1 "2 + 5404319552844595 / 2 ^ 54"] by (simp add: round_even_def)

lemma binary64_102k:
  "binary64 (102 + (2 + 675539944105574 / 2 ^ 51)) = Some (104 + 21110623253299 / 2 ^ 46)"
  using binary64_binade [of 6 "102 + (2 + 675539944105574 / 2 ^ 51)"]
  by (simp add: round_even_def)

lemma binary64_4k:
  "binary64 (4 + 5404319552844595 / 2 ^ 54) = Some (4 + 337769972052787 / 2 ^ 50)"
  using binary64_binade [of 2 "4 + 5404319552844595 / 2 ^ 54"] by (simp add: round_even_def)

lemma first_move64:
  "Circle_move64 (Circle_new \<lparr> point_x = 100, point_y = 100 \<rparr> 2 ''#888888'' 0)
     = Some \<lparr> origin = \<lparr> point_x = 100, point_y = 100 \<rparr>,
              position = \<lparr> point_x = 100, point_y = 102 \<rparr>,
              color = ''#888888'', speed = 2, angle = 0, renderCount = 1 \<rparr>"
  by (simp add: Circle_move64_def Circle_new_def Math_sin_def Math_cos_def binary64_1
      binary64_2 binary64_100 binary64_102 k03)

lemma second_move64:
  "Circle_move64 \<lparr> origin = \<lparr> point_x = 100, point_y = 100 \<rparr>,
              position = \<lparr> point_x = 100, point_y = 102 \<rparr>,
              color = ''#888888'', speed = 2, angle = 0, renderCount = 1 \<rparr>
     = Some \<lparr> origin = \<lparr> point_x = 100, point_y = 100 \<rparr>,
              position = \<lparr> point_x = 100, point_y = 104 + 21110623253299 / 2 ^ 46 \<rparr>,
              color = ''#888888'', speed = 2, angle = 0, renderCount = 2 \<rparr>"
  by (simp add: Circle_move64_def Math_sin_def Math_cos_def binary64_1
      binary64_2 binary64_100 binary64_k [simplified] binary64_2k [simplified]
      binary64_102k [simplified] k03 [simplified])

lemma Circle_move64_fields:
  assumes "Circle_move64 c = Some c'"
  shows "origin c' = origin c" "angle c' = angle c" "speed c' = speed c" "color c' = color c"
    "renderCount c' = (if renderCount c < 2 ^ 53 then renderCount c + 1 else renderCount c)"
  using assms by (auto simp: Circle_move64_def bind_eq_Some_conv)

lemma Circle_move64_step:
  assumes "Circle_move64 c = Some c'"
  shows "\<exists>s dx co cs k g dy.
            Math_sin (angle c) = Some s \<and> binary64 (s * speed c) = Some dx
          \<and> binary64 (point_x (position c) + dx) = Some (point_x (position c'))
          \<and> Math_cos (angle c) = Some co \<and> binary64 (co * speed c) = Some cs
          \<and> binary64 (3 / 10) = Some k \<and> binary64 (real (renderCount c) * k) = Some g
          \<and> binary64 (cs + g) = Some dy
          \<and> binary64 (point_y (position c) + dy) = Some (point_y (position c'))"
  using assms by (auto simp: Circle_move64_def bind_eq_Some_conv)

lemma Circle_moves64_fields:
  "Circle_moves64 m d = Some d' \<Longrightarrow> renderCount d + m \<le> 2 ^ 53 \<Longrightarrow>
     renderCount d' = renderCount d + m \<and> origin d' = origin d
     \<and> angle d' = angle d \<and> speed d' = speed d"
proof (induction m arbitrary: d)
  case 0
  then show ?case by simp
next
  case (Suc m)
  from Suc.prems(1) obtain e where e: "Circle_move64 d = Some e" "Circle_moves64 m e = Some d'"
    by (auto simp: bind_eq_Some_conv)
  from Suc.prems(2) have lt: "renderCount d < 2 ^ 53" by simp
  from Circle_move64_fields [OF e(1)] lt
  have f: "origin e = origin d" "angle e = angle d" "speed e = speed d"
    "renderCount e = renderCount d + 1"
    by simp_all
  from Suc.prems(2) f(4) have "renderCount e + m \<le> 2 ^ 53" by simp
  from Suc.IH [OF e(2) this] f show ?case by simp
qed

text \<open>
  Claim C1, as the code has it.  With every operation exact, a particle made by the
  constructor and moved \<open>n\<close> times is \<open>n * sin angle * speed\<close> from its origin along x
  and \<open>n * cos angle * speed + 0.3 * (0 + 1 + ... + (n - 1))\<close> along y, and \<open>renderCount\<close> is
  \<open>n\<close>.  In double arithmetic one \<open>move\<close> that stays finite replaces x by the double
  nearest to x plus the rounded \<open>sin angle * speed\<close>, replaces y by the double nearest to y
  plus the rounded sum of the rounded \<open>cos angle * speed\<close> and the rounded
  \<open>renderCount * 0.3\<close> (with the count before the call), increments \<open>renderCount\<close> below
  \<open>2^53\<close>, and leaves origin, angle and speed as they are; so after \<open>m\<close> such moves
  \<open>renderCount\<close> has grown by \<open>m\<close>.
\<close>

theorem Circle_move_rounded_step_exact_closed_form:
  "(point_x (position (Circle_moves n (Circle_new origin0 speed0 color0 angle0)))
      - point_x (origin (Circle_moves n (Circle_new origin0 speed0 color0 angle0)))
      = real n * sin angle0 * speed0
    \<and> point_y (position (Circle_moves n (Circle_new origin0 speed0 color0 angle0)))
      - point_y (origin (Circle_moves n (Circle_new origin0 speed0 color0 angle0)))
      = real n * cos angle0 * speed0 + 0.3 * real (\<Sum>k<n. k)
    \<and> renderCount (Circle_moves n (Circle_new origin0 speed0 color0 angle0)) = n)
   \<and> (Circle_move64 c = Some c' \<longrightarrow>
        (\<exists>s dx co cs k g dy.
            Math_sin (angle c) = Some s \<and> binary64 (s * speed c) = Some dx
          \<and> binary64 (point_x (position c) + dx) = Some (point_x (position c'))
          \<and> Math_cos (angle c) = Some co \<and> binary64 (co * speed c) = Some cs
          \<and> binary64 (3 / 10) = Some k \<and> binary64 (real (renderCount c) * k) = Some g
          \<and> binary64 (cs + g) = Some dy
          \<and> binary64 (point_y (position c) + dy) = Some (point_y (position c')))
        \<and> origin c' = origin c \<and> angle c' = angle c \<and> speed c' = speed c
        \<and> (renderCount c < 2 ^ 53 \<longrightarrow> renderCount c' = renderCount c + 1))
   \<and> (Circle_moves64 m d = Some d' \<and> renderCount d + m \<le> 2 ^ 53 \<longrightarrow>
        renderCount d' = renderCount d + m \<and> origin d' = origin d
        \<and> angle d' = angle d \<and> speed d' = speed d)"
proof -
  have exact: "point_x (position (Circle_moves n (Circle_new origin0 speed0 color0 angle0)))
      - point_x (origin (Circle_moves n (Circle_new origin0 speed0 color0 angle0)))
      = real n * sin angle0 * speed0
    \<and> point_y (position (Circle_moves n (Circle_new origin0 speed0 color0 angle0)))
      - point_y (origin (Circle_moves n (Circle_new origin0 speed0 color0 angle0)))
      = real n * cos angle0 * speed0 + 0.3 * real (\<Sum>k<n. k)
    \<and> renderCount (Circle_moves n (Circle_new origin0 speed0 color0 angle0)) = n"
    by (simp add: Circle_moves_x Circle_moves_y Circle_new_def)
  have step: "Circle_move64 c = Some c' \<longrightarrow>
        (\<exists>s dx co cs k g dy.
            Math_sin (angle c) = Some s \<and> binary64 (s * speed c) = Some dx
          \<and> binary64 (point_x (position c) + dx) = Some (point_x (position c'))
          \<and> Math_cos (angle c) = Some co \<and> binary64 (co * speed c) = Some cs
          \<and> binary64 (3 / 10) = Some k \<and> binary64 (real (renderCount c) * k) = Some g
          \<and> binary64 (cs + g) = Some dy
          \<and> binary64 (point_y (position c) + dy) = Some (point_y (position c')))
        \<and> origin c' = origin c \<and> angle c' = angle c \<and> speed c' = speed c
        \<and> (renderCount c < 2 ^ 53 \<longrightarrow> renderCount c' = renderCount c + 1)"
  proof
    assume a: "Circle_move64 c = Some c'"
    from Circle_move64_step [OF a] Circle_move64_fields [OF a]
    show "(\<exists>s dx co cs k g dy.
            Math_sin (angle c) = Some s \<and> binary64 (s * speed c) = Some dx
          \<and> binary64 (point_x (position c) + dx) = Some (point_x (position c'))
          \<and> Math_cos (angle c) = Some co \<and> binary64 (co * speed c) = Some cs
          \<and> binary64 (3 / 10) = Some k \<and> binary64 (real (renderCount c) * k) = Some g
          \<and> binary64 (cs + g) = Some dy
          \<and> binary64 (point_y (position c) + dy) = Some (point_y (position c')))
        \<and> origin c' = origin c \<and> angle c' = angle c \<and> speed c' = speed c
        \<and> (renderCount c < 2 ^ 53 \<longrightarrow> renderCount c' = renderCount c + 1)"
      by simp
  qed
  have many: "Circle_moves64 m d = Some d' \<and> renderCount d + m \<le> 2 ^ 53 \<longrightarrow>
        renderCount d' = renderCount d + m \<and> origin d' = origin d
        \<and> angle d' = angle d \<and> speed d' = speed d"
    using Circle_moves64_fields [of m d d'] by blast
  show ?thesis by (rule conjI [OF exact conjI [OF step many]])
qed

theorem Circle_move_rounded_step_exact_closed_form_witness:
  "Circle_moves64 1 (Circle_new \<lparr> point_x = 100, point_y = 100 \<rparr> 2 ''#888888'' 0)
     = Some \<lparr> origin = \<lparr> point_x = 100, point_y = 100 \<rparr>,
              position = \<lparr> point_x = 100, point_y = 102 \<rparr>,
              color = ''#888888'', speed = 2, angle = 0, renderCount = 1 \<rparr>
   \<and> renderCount (Circle_new \<lparr> point_x = 100, point_y = 100 \<rparr> 2 ''#888888'' 0) + 1
       \<le> (2::nat) ^ 53
   \<and> renderCount \<lparr> origin = \<lparr> point_x = 100, point_y = 100 \<rparr>,
              position = \<lparr> point_x = 100, point_y = 102 \<rparr>,
              color = ''#888888'', speed = 2, angle = 0, renderCount = 1 \<rparr>
       = renderCount (Circle_new \<lparr> point_x = 100, point_y = 100 \<rparr> 2 ''#888888'' 0) + 1"
proof -
  have m: "Circle_moves64 1 (Circle_new \<lparr> point_x = 100, point_y = 100 \<rparr> 2 ''#888888'' 0)
     = Some \<lparr> origin = \<lparr> point_x = 100, point_y = 100 \<rparr>,
              position = \<lparr> point_x = 100, point_y = 102 \<rparr>,
              color = ''#888888'', speed = 2, angle = 0, renderCount = 1 \<rparr>"
    by (simp add: first_move64)
  have le: "renderCount (Circle_new \<lparr> point_x = 100, point_y = 100 \<rparr> 2 ''#888888'' 0) + 1
       \<le> (2::nat) ^ 53"
    by (simp add: Circle_new_def)
  from Circle_move_rounded_step_exact_closed_form
    [of 0 "\<lparr> point_x = 100, point_y = 100 \<rparr>" 2 "''#888888''" 0
        "Circle_new \<lparr> point_x = 100, point_y = 100 \<rparr> 2 ''#888888'' 0"
        "\<lparr> origin = \<lparr> point_x = 100, point_y = 100 \<rparr>,
              position = \<lparr> point_x = 100, point_y = 102 \<rparr>,
              color = ''#888888'', speed = 2, angle = 0, renderCount = 1 \<rparr>"
        1 "Circle_new \<lparr> point_x = 100, point_y = 100 \<rparr> 2 ''#888888'' 0"
        "\<lparr> origin = \<lparr> point_x = 100, point_y = 100 \<rparr>,
              position = \<lparr> point_x = 100, point_y = 102 \<rparr>,
              color = ''#888888'', speed = 2, angle = 0, renderCount = 1 \<rparr>"]
    m le
  show ?thesis by (simp add: Circle_new_def)
qed

text \<open>
  The closed form is not what double arithmetic gives.  A particle at \<open>(100, 100)\<close> with
  angle 0 and speed 2 is, after two moves, \<open>4 + 21110623253299 / 2^46\<close>
  (4.299999999999997) below its origin: neither \<open>4.3\<close>, the closed form, nor the double
  \<open>4 + 337769972052787 / 2^50\<close> that the closed form evaluates to in double arithmetic.
\<close>

theorem Circle_move_closed_form_counterexample:
  "\<exists>c. Circle_moves64 2 (Circle_new \<lparr> point_x = 100, point_y = 100 \<rparr> 2 ''#888888'' 0) = Some c
      \<and> point_y (position c) - point_y (origin c) = 4 + 21110623253299 / 2 ^ 46
      \<and> point_y (position c) - point_y (origin c)
           \<noteq> real 2 * cos 0 * 2 + 0.3 * real (\<Sum>k<2. k)
      \<and> binary64 (point_y (position c) - point_y (origin c))
           \<noteq> binary64 (4 + 5404319552844595 / 2 ^ 54)"
proof -
  let ?c = "\<lparr> origin = \<lparr> point_x = 100, point_y = 100 \<rparr>,
              position = \<lparr> point_x = 100, point_y = 104 + 21110623253299 / 2 ^ 46 \<rparr>,
              color = ''#888888'', speed = 2, angle = 0, renderCount = 2 \<rparr>"
  have m: "Circle_moves64 2 (Circle_new \<lparr> point_x = 100, point_y = 100 \<rparr> 2 ''#888888'' 0)
             = Some ?c"
    by (simp only: numeral_2_eq_2 Circle_moves64.simps first_move64 second_move64
        Option.bind.simps)
  have d: "point_y (position ?c) - point_y (origin ?c) = 4 + 21110623253299 / 2 ^ 46"
    by simp
  have two: "(\<Sum>k<2. k) = (1::nat)" by (simp add: numeral_2_eq_2)
  have n1: "point_y (position ?c) - point_y (origin ?c)
           \<noteq> real 2 * cos 0 * 2 + 0.3 * real (\<Sum>k<2. k)"
    unfolding two by simp
  have b: "binary64 (4 + 21110623253299 / 2 ^ 46) = Some (4 + 21110623253299 / 2 ^ 46)"
    using binary64_binade [of 2 "4 + 21110623253299 / 2 ^ 46"] by (simp add: round_even_def)
  have n2: "binary64 (point_y (position ?c) - point_y (origin ?c))
           \<noteq> binary64 (4 + 5404319552844595 / 2 ^ 54)"
    unfolding d b binary64_4k by simp
  show ?thesis
    by (intro exI [of _ ?c] conjI m d n1 n2)
qed

section \<open>The step of a burst\<close>


lemma move_loop_prefix:
  "n \<le> length cs \<Longrightarrow>
   move_loop a (int n - 1) cs = Some (moved_circles a (take n cs) @ drop n cs)"
proof (induction n arbitrary: cs)
  case 0
  show ?case by (subst move_loop.simps) (simp add: moved_circles_def)
next
  case (Suc n)
  then have n: "n < length cs" by simp
  let ?c = "Circle_move (cs ! n)"
  let ?cs' = "cs [n := ?c]"
  have tk: "take (Suc n) cs = take n cs @ [cs ! n]"
    using n by (simp add: take_Suc_conv_app_nth)
  show ?case
  proof (cases "out_of_area a ?c")
    case True
    have len: "n \<le> length (splice1 n ?cs')"
      using n by (simp add: splice1_def)
    have "move_loop a (int (Suc n) - 1) cs = move_loop a (int n - 1) (splice1 n ?cs')"
      using n True by (subst move_loop.simps) (simp add: Let_def)
    also have "\<dots> = Some (moved_circles a (take n (splice1 n ?cs')) @ drop n (splice1 n ?cs'))"
      using Suc.IH [OF len] .
    also have "take n (splice1 n ?cs') = take n cs"
      using n by (simp add: splice1_def)
    also have "drop n (splice1 n ?cs') = drop (Suc n) cs"
      using n by (simp add: splice1_def)
    finally show ?thesis
      using True by (simp add: tk moved_circles_def in_area_def)
  next
    case False
    have len: "n \<le> length ?cs'" using n by simp
    have "move_loop a (int (Suc n) - 1) cs = move_loop a (int n - 1) ?cs'"
      using n False by (subst move_loop.simps) (simp add: Let_def)
    also have "\<dots> = Some (moved_circles a (take n ?cs') @ drop n ?cs')"
      using Suc.IH [OF len] .
    also have "take n ?cs' = take n cs" by simp
    also have "drop n ?cs' = ?c # drop (Suc n) cs"
      using n by (simp add: Cons_nth_drop_Suc [symmetric] upd_conv_take_nth_drop)
    finally show ?thesis
      using False by (simp add: tk moved_circles_def in_area_def)
  qed
qed

lemma Boom_move_moved: "Boom_move b = Some (moved b)"
  using move_loop_prefix [of "length (circles b)" "circles b" "area b"]
  by (simp add: Boom_move_def moved_def)

lemma moved_fields [simp]:
  "area (moved b) = area b"
  "boom_origin (moved b) = boom_origin b"
  "circleCount (moved b) = circleCount b"
  "circles (moved b) = moved_circles (area b) (circles b)"
  "stop (moved b) = (moved_circles (area b) (circles b) = [])"
  by (simp_all add: moved_def)

lemma moved_circles_Nil_iff:
  "moved_circles a cs = [] \<longleftrightarrow> (\<forall>c \<in> set cs. out_of_area a (Circle_move c))"
  by (auto simp: moved_circles_def in_area_def filter_empty_conv)

text \<open>
  Claim C3.  \<open>Boom.move\<close> never throws; it leaves exactly the moved particles whose new
  position is not left of 0, not right of the burst's \<open>area.width\<close> and not below its
  \<open>area.height\<close>, in their order (no entry is skipped); \<open>stop\<close> is then true exactly
  when no particle is left, which is exactly when every particle of the burst was out of
  the area after its move.  The burst's area, origin and count are unchanged.
\<close>

theorem Boom_move_removes_out_of_area:
  "\<exists>b'. Boom_move b = Some b'
     \<and> circles b' =
         filter (\<lambda>c. \<not> (point_x (position c) < 0 \<or> point_x (position c) > width (area b)
                          \<or> point_y (position c) > height (area b)))
           (map Circle_move (circles b))
     \<and> stop b' = (circles b' = [])
     \<and> (stop b' \<longleftrightarrow> (\<forall>c \<in> set (circles b). out_of_area (area b) (Circle_move c)))
     \<and> area b' = area b \<and> boom_origin b' = boom_origin b \<and> circleCount b' = circleCount b"
proof -
  have "in_area (area b) =
          (\<lambda>c. \<not> (point_x (position c) < 0 \<or> point_x (position c) > width (area b)
                     \<or> point_y (position c) > height (area b)))"
    by (rule ext) (simp add: in_area_def out_of_area_def)
  then have c: "circles (moved b) =
         filter (\<lambda>c. \<not> (point_x (position c) < 0 \<or> point_x (position c) > width (area b)
                          \<or> point_y (position c) > height (area b)))
           (map Circle_move (circles b))"
    by (simp only: moved_fields moved_circles_def)
  have s1: "stop (moved b) = (circles (moved b) = [])"
    by simp
  have s2: "stop (moved b) \<longleftrightarrow> (\<forall>c \<in> set (circles b). out_of_area (area b) (Circle_move c))"
    by (simp add: moved_circles_Nil_iff)
  show ?thesis
    by (intro exI [of _ "moved b"] conjI Boom_move_moved c s1 s2 moved_fields)
qed

theorem Boom_move_removes_out_of_area_witness:
  "\<exists>b'. Boom_move
          \<lparr> boom_origin = \<lparr> point_x = 100, point_y = 100 \<rparr>, circleCount = 2,
            area = \<lparr> width = 800, height = 600 \<rparr>, stop = False,
            circles =
              [ \<lparr> origin = \<lparr> point_x = 100, point_y = 100 \<rparr>,
                  position = \<lparr> point_x = 100, point_y = 600 \<rparr>,
                  color = ''#89ABCD'', speed = 2, angle = 0, renderCount = 10 \<rparr>,
                \<lparr> origin = \<lparr> point_x = 100, point_y = 100 \<rparr>,
                  position = \<lparr> point_x = 100, point_y = 100 \<rparr>,
                  color = ''#FEDCBA'', speed = 2, angle = 0, renderCount = 0 \<rparr> ] \<rparr>
        = Some b'
      \<and> circles b' =
          [ \<lparr> origin = \<lparr> point_x = 100, point_y = 100 \<rparr>,
              position = \<lparr> point_x = 100, point_y = 102 \<rparr>,
              color = ''#FEDCBA'', speed = 2, angle = 0, renderCount = 1 \<rparr> ]
      \<and> \<not> stop b'"
  using Boom_move_removes_out_of_area
    [of "\<lparr> boom_origin = \<lparr> point_x = 100, point_y = 100 \<rparr>, circleCount = 2,
            area = \<lparr> width = 800, height = 600 \<rparr>, stop = False,
            circles =
              [ \<lparr> origin = \<lparr> point_x = 100, point_y = 100 \<rparr>,
                  position = \<lparr> point_x = 100, point_y = 600 \<rparr>,
                  color = ''#89ABCD'', speed = 2, angle = 0, renderCount = 10 \<rparr>,
                \<lparr> origin = \<lparr> point_x = 100, point_y = 100 \<rparr>,
                  position = \<lparr> point_x = 100, point_y = 100 \<rparr>,
                  color = ''#FEDCBA'', speed = 2, angle = 0, renderCount = 0 \<rparr> ] \<rparr>"]
  by (auto simp: Circle_move_def)

lemma Boom_moves_moved: "Boom_moves n b = Some ((moved ^^ n) b)"
  by (induction n arbitrary: b) (simp_all add: Boom_move_moved funpow_swap1)

lemma length_moved_circles: "length (moved_circles a cs) \<le> length cs"
  unfolding moved_circles_def
  by (rule order_trans [OF length_filter_le]) simp

lemma length_circles_funpow:
  "length (circles ((moved ^^ n) b)) \<le> length (circles b)"
proof (induction n)
  case 0
  show ?case by simp
next
  case (Suc n)
  have "length (circles ((moved ^^ Suc n) b)) \<le> length (circles ((moved ^^ n) b))"
    by (simp add: length_moved_circles)
  with Suc show ?case by linarith
qed

text \<open>
  Claim C9.  One \<open>move\<close> of a burst never makes its particle list longer, and neither do
  \<open>n\<close> further moves after any \<open>m\<close> moves.
\<close>

theorem particle_count_never_increases:
  "(\<exists>b'. Boom_move b = Some b' \<and> length (circles b') \<le> length (circles b))
   \<and> (\<exists>b1 b2. Boom_moves m b = Some b1 \<and> Boom_moves (m + n) b = Some b2
          \<and> length (circles b2) \<le> length (circles b1))"
proof -
  have "length (circles ((moved ^^ (n + m)) b)) \<le> length (circles ((moved ^^ m) b))"
    using length_circles_funpow [of n "(moved ^^ m) b"] by (simp add: funpow_add)
  then show ?thesis
    by (simp add: Boom_move_moved Boom_moves_moved length_moved_circles add.commute)
qed

section \<open>Random helpers and initialisation\<close>


lemma randomIndex_bounds:
  assumes "range0 \<noteq> []" "0 \<le> r" "r < 1"
  shows "0 \<le> randomIndex range0 r" "randomIndex range0 r < int (length range0)"
proof -
  have pos: "0 < real (length range0)" using assms(1) by simp
  show "0 \<le> randomIndex range0 r"
    using assms(2) by (simp add: randomIndex_def)
  have "real (length range0) * r < real (length range0) * 1"
    using pos assms(3) by (intro mult_strict_left_mono) simp_all
  then show "randomIndex range0 r < int (length range0)"
    by (simp add: randomIndex_def floor_less_iff)
qed

lemma randomArray_Some:
  assumes "range0 \<noteq> []" "0 \<le> r" "r < 1"
  shows "randomArray range0 r = Some (range0 ! nat (randomIndex range0 r))"
    and "range0 ! nat (randomIndex range0 r) \<in> set range0"
  using randomIndex_bounds [OF assms] by (simp_all add: randomArray_def Let_def)

lemma palette_pick:
  assumes "0 \<le> r" "r < 1"
  shows "\<exists>ch. randomArray palette r = Some [ch] \<and> ch \<in> set ''89ABCDEF''"
proof -
  have ne: "palette \<noteq> []" by (simp add: palette_def)
  from randomArray_Some [OF ne assms]
  obtain s where s: "randomArray palette r = Some s" "s \<in> set palette" by blast
  from s(2) have "\<exists>ch. s = [ch] \<and> ch \<in> set ''89ABCDEF''"
    by (auto simp: palette_def)
  with s(1) show ?thesis by auto
qed

lemma concat_singletons:
  "\<forall>x \<in> set xs. \<exists>ch. g x = [ch] \<and> ch \<in> A \<Longrightarrow>
     length (concat (map g xs)) = length xs \<and> set (concat (map g xs)) \<subseteq> A"
  by (induction xs) auto

lemma randomColor_form:
  assumes "unit_draws rnd"
  shows "\<exists>s. fst (randomColor rnd n) = CHR ''#'' # s \<and> length s = 6
              \<and> set s \<subseteq> set ''89ABCDEF''"
proof -
  let ?g = "\<lambda>j. join_elem (randomArray palette (rnd (n + j)))"
  have "\<forall>j \<in> set [0..<6]. \<exists>ch. ?g j = [ch] \<and> ch \<in> set ''89ABCDEF''"
  proof
    fix j
    from assms have "0 \<le> rnd (n + j)" "rnd (n + j) < 1" by (simp_all add: unit_draws_def)
    from palette_pick [OF this]
    show "\<exists>ch. ?g j = [ch] \<and> ch \<in> set ''89ABCDEF''" by (auto simp: join_elem_def)
  qed
  from concat_singletons [OF this]
  have "length (concat (map ?g [0..<6])) = 6 \<and> set (concat (map ?g [0..<6])) \<subseteq> set ''89ABCDEF''"
    by simp
  then show ?thesis
    by (simp add: randomColor_def colorPicks_def comp_def)
qed

lemma randomRange_bounds:
  assumes "start0 \<le> end0" "0 \<le> r" "r < 1"
  shows "start0 \<le> randomRange start0 end0 r" "randomRange start0 end0 r \<le> end0"
proof -
  have d: "0 \<le> end0 - start0" using assms(1) by simp
  have "0 \<le> (end0 - start0) * r" using d assms(2) by simp
  then show "start0 \<le> randomRange start0 end0 r" by (simp add: randomRange_def)
  have "(end0 - start0) * r \<le> (end0 - start0) * 1"
    using d assms(3) by (intro mult_left_mono) simp_all
  then show "randomRange start0 end0 r \<le> end0" by (simp add: randomRange_def)
qed


lemma init_circle_snd: "snd (init_circle rnd n b) = n + 8"
  by (simp add: init_circle_def randomColor_def Let_def)

lemma init_loop_fields:
  "init_loop rnd i (n, b) = (n', b') \<Longrightarrow>
     circleCount b' = circleCount b \<and> area b' = area b \<and> stop b' = stop b
     \<and> boom_origin b' = boom_origin b
     \<and> length (circles b') = length (circles b) + (circleCount b - i)
     \<and> n' = n + 8 * (circleCount b - i)"
proof (induction rnd i "(n, b)" arbitrary: n b rule: init_loop.induct)
  case (1 rnd i n b)
  show ?case
  proof (cases "i < circleCount b")
    case True
    obtain c m where cm: "init_circle rnd n b = (c, m)" by force
    have m: "m = n + 8" using init_circle_snd [of rnd n b] cm by simp
    from "1.prems" True cm
    have "init_loop rnd (i + 1) (m, b \<lparr> circles := circles b @ [c] \<rparr>) = (n', b')"
      by (subst (asm) init_loop.simps) simp
    from "1.hyps" [OF True cm [symmetric] refl this] True m
    show ?thesis by (auto simp: algebra_simps)
  next
    case False
    with "1.prems" show ?thesis by (subst (asm) init_loop.simps) auto
  qed
qed

lemma init_loop_circles:
  assumes new: "\<And>m b0. boom_origin b0 = boom_origin b \<Longrightarrow> P (fst (init_circle rnd m b0))"
    and old: "\<forall>c \<in> set (circles b). P c"
  shows "\<forall>c \<in> set (circles (snd (init_loop rnd i (n, b)))). P c"
  using assms
proof (induction rnd i "(n, b)" arbitrary: n b rule: init_loop.induct)
  case (1 rnd i n b)
  show ?case
  proof (cases "i < circleCount b")
    case True
    obtain c m where cm: "init_circle rnd n b = (c, m)" by force
    let ?b = "b \<lparr> circles := circles b @ [c] \<rparr>"
    have eq: "init_loop rnd i (n, b) = init_loop rnd (i + 1) (m, ?b)"
      using True cm by (subst init_loop.simps) simp
    have Pc: "P c" using "1.prems"(1) [of b n] cm by simp
    have "\<forall>c \<in> set (circles (snd (init_loop rnd (i + 1) (m, ?b)))). P c"
    proof (rule "1.hyps" [OF True cm [symmetric] refl])
      show "P (fst (init_circle rnd m' b0))" if "boom_origin b0 = boom_origin ?b" for m' b0
        using that "1.prems"(1) [of b0 m'] by simp
      show "\<forall>c \<in> set (circles ?b). P c" using "1.prems"(2) Pc by simp
    qed
    then show ?thesis by (simp only: eq)
  next
    case False
    then have "init_loop rnd i (n, b) = (n, b)" by (subst init_loop.simps) simp
    with "1.prems"(2) show ?thesis by simp
  qed
qed

lemma Boom_init_fields:
  "circleCount (snd (Boom_init rnd (n, b))) = circleCount b"
  "area (snd (Boom_init rnd (n, b))) = area b"
  "stop (snd (Boom_init rnd (n, b))) = stop b"
  "boom_origin (snd (Boom_init rnd (n, b))) = boom_origin b"
  "length (circles (snd (Boom_init rnd (n, b)))) = length (circles b) + circleCount b"
  "fst (Boom_init rnd (n, b)) = n + 8 * circleCount b"
  using init_loop_fields [of rnd 0 n b "fst (init_loop rnd 0 (n, b))" "snd (init_loop rnd 0 (n, b))"]
  by (simp_all add: Boom_init_def)

text \<open>
  Claim C4.  A burst constructed with particle count \<open>k\<close> has, right after \<open>init\<close>,
  exactly \<open>k\<close> particles and \<open>stop = false\<close>, for \<open>k = 0\<close> as well: the constructor
  gives an empty list and \<open>stop = false\<close>, and \<open>init\<close> does not assign \<open>stop\<close>.
\<close>

theorem Boom_init_length_and_stop:
  "length (circles (snd (Boom_init rnd (n, Boom_new origin0 (Some k) area0)))) = k
   \<and> stop (snd (Boom_init rnd (n, Boom_new origin0 (Some k) area0))) = False
   \<and> circles (Boom_new origin0 (Some k) area0) = []
   \<and> stop (Boom_new origin0 (Some k) area0) = False"
  by (simp add: Boom_init_fields) (simp add: Boom_new_def)

text \<open>
  Claim C10.  For a non-empty array and a draw \<open>r\<close> with \<open>0 \<le> r < 1\<close>, the index
  \<open>floor (length * r)\<close> that \<open>#randomArray\<close> computes lies in \<open>0 .. length - 1\<close>, so the
  helper returns an element of the array and never \<open>undefined\<close>.  With draws in
  \<open>[0, 1)\<close>, none of the six picks of \<open>#randomColor\<close> is \<open>undefined\<close>, each is one of the
  eight palette symbols, and the colour has no character besides \<open>#\<close> and those symbols.
\<close>

theorem randomArray_in_range:
  assumes "range0 \<noteq> []" and "0 \<le> r" and "r < 1" and "unit_draws rnd"
  shows "0 \<le> randomIndex range0 r \<and> randomIndex range0 r \<le> int (length range0) - 1
         \<and> randomArray range0 r = Some (range0 ! nat (randomIndex range0 r))
         \<and> range0 ! nat (randomIndex range0 r) \<in> set range0
         \<and> None \<notin> set (colorPicks rnd n)
         \<and> set (colorPicks rnd n) \<subseteq> Some ` set palette
         \<and> set (fst (randomColor rnd n)) \<subseteq> set ''#89ABCDEF''"
proof -
  have ne: "palette \<noteq> []" by (simp add: palette_def)
  have picks: "set (colorPicks rnd n) \<subseteq> Some ` set palette"
  proof
    fix p
    assume "p \<in> set (colorPicks rnd n)"
    then obtain j where p: "p = randomArray palette (rnd (n + j))"
      by (auto simp: colorPicks_def)
    from assms(4) have "0 \<le> rnd (n + j)" "rnd (n + j) < 1" by (simp_all add: unit_draws_def)
    from randomArray_Some [OF ne this] p show "p \<in> Some ` set palette" by simp
  qed
  then have none: "None \<notin> set (colorPicks rnd n)" by auto
  from randomColor_form [OF assms(4), of n]
  have col: "set (fst (randomColor rnd n)) \<subseteq> set ''#89ABCDEF''" by auto
  from randomIndex_bounds [OF assms(1-3)] randomArray_Some [OF assms(1-3)] picks none col
  show ?thesis by simp
qed

theorem randomArray_in_range_witness:
  "[''a'', ''b'', ''c''] \<noteq> [] \<and> (0::real) \<le> 2 / 3 \<and> (2::real) / 3 < 1
   \<and> unit_draws (\<lambda>k. 7 / 8)
   \<and> randomIndex [''a'', ''b'', ''c''] (2 / 3) = 2
   \<and> randomArray [''a'', ''b'', ''c''] (2 / 3) = Some ''c''
   \<and> None \<notin> set (colorPicks (\<lambda>k. 7 / 8) 0)
   \<and> fst (randomColor (\<lambda>k. 7 / 8) 0) = ''#FFFFFF''"
proof -
  have u: "unit_draws (\<lambda>k. 7 / 8)" by (simp add: unit_draws_def)
  have i: "randomIndex [''a'', ''b'', ''c''] (2 / 3) = 2" by (simp add: randomIndex_def)
  have f: "\<lfloor>(8::real) * (7 / 8)\<rfloor> = 7" by simp
  have six: "[0..<6] = [0, 1, 2, 3, 4, 5::nat]" by code_simp
  have c: "fst (randomColor (\<lambda>k. 7 / 8) 0) = ''#FFFFFF''"
    by (simp add: randomColor_def colorPicks_def randomArray_def randomIndex_def palette_def
        join_elem_def six)
  from randomArray_in_range [of "[''a'', ''b'', ''c'']" "2 / 3" "\<lambda>k. 7 / 8" 0] u i c
  show ?thesis by simp
qed

lemma init_circle_half:
  "init_circle (\<lambda>k. 1 / 2) m b
     = (\<lparr> origin = boom_origin b, position = boom_origin b,
          color = ''#CCCCCC'', speed = 7 / 2, angle = pi, renderCount = 0 \<rparr>, m + 8)"
proof -
  have six: "[0..<6] = [0, 1, 2, 3, 4, 5::nat]" by code_simp
  show ?thesis
    by (simp add: init_circle_def randomColor_def colorPicks_def randomArray_def
        randomIndex_def palette_def join_elem_def six randomRange_def Circle_new_def)
qed

lemma Boom_init_circles:
  assumes "unit_draws rnd"
  shows "length (circles (snd (Boom_init rnd (n, Boom_new origin0 count0 area0))))
           = (case count0 of None \<Rightarrow> 10 | Some k \<Rightarrow> k)
         \<and> boom_origin (snd (Boom_init rnd (n, Boom_new origin0 count0 area0))) = origin0
         \<and> (\<forall>c \<in> set (circles (snd (Boom_init rnd (n, Boom_new origin0 count0 area0)))).
               origin c = origin0 \<and> position c = origin0 \<and> renderCount c = 0
               \<and> pi - 1 \<le> angle c \<and> angle c \<le> pi + 1
               \<and> 1 \<le> speed c \<and> speed c \<le> 6
               \<and> (\<exists>s. color c = CHR ''#'' # s \<and> length s = 6
                        \<and> set s \<subseteq> set ''89ABCDEF''))"
proof -
  let ?P = "\<lambda>c. origin c = origin0 \<and> position c = origin0 \<and> renderCount c = 0
               \<and> pi - 1 \<le> angle c \<and> angle c \<le> pi + 1
               \<and> 1 \<le> speed c \<and> speed c \<le> 6
               \<and> (\<exists>s. color c = CHR ''#'' # s \<and> length s = 6
                        \<and> set s \<subseteq> set ''89ABCDEF'')"
  let ?b = "Boom_new origin0 count0 area0"
  have r: "0 \<le> rnd k" "rnd k < 1" for k using assms by (simp_all add: unit_draws_def)
  have a: "pi - 1 \<le> randomRange (pi - 1) (pi + 1) (rnd k)"
          "randomRange (pi - 1) (pi + 1) (rnd k) \<le> pi + 1" for k
    using randomRange_bounds [of "pi - 1" "pi + 1" "rnd k"] r [of k] by simp_all
  have s: "1 \<le> randomRange 1 6 (rnd k)" "randomRange 1 6 (rnd k) \<le> 6" for k
    using randomRange_bounds [of 1 6 "rnd k"] r [of k] by simp_all
  have new: "?P (fst (init_circle rnd m b0))" if "boom_origin b0 = boom_origin ?b" for m b0
  proof -
    obtain col m' where cm: "randomColor rnd m = (col, m')" by force
    with randomColor_form [OF assms, of m]
    have col: "\<exists>s. col = CHR ''#'' # s \<and> length s = 6 \<and> set s \<subseteq> set ''89ABCDEF''" by simp
    have o: "boom_origin b0 = origin0" using that by (simp add: Boom_new_def)
    show ?thesis
      using a s col o by (simp add: init_circle_def cm Circle_new_def)
  qed
  have old: "\<forall>c \<in> set (circles ?b). ?P c" by (simp add: Boom_new_def)
  have all: "\<forall>c \<in> set (circles (snd (Boom_init rnd (n, ?b)))). ?P c"
    unfolding Boom_init_def by (rule init_loop_circles [where P = ?P, OF new old])
  have len: "length (circles (snd (Boom_init rnd (n, ?b))))
           = (case count0 of None \<Rightarrow> 10 | Some k \<Rightarrow> k)"
    by (simp add: Boom_init_fields) (simp add: Boom_new_def)
  have org: "boom_origin (snd (Boom_init rnd (n, ?b))) = origin0"
    by (simp add: Boom_init_fields) (simp add: Boom_new_def)
  from len org all show ?thesis by blast
qed

text \<open>
  Claim C8.  With draws in \<open>[0, 1)\<close>, \<open>init\<close> on a new burst makes as many particles as
  the count given to the constructor, 10 when none is given.  Each has the burst's origin
  as origin and position, angle in \<open>[pi - 1, pi + 1]\<close>, speed in \<open>[1, 6]\<close>, and as colour
  \<open>#\<close> followed by exactly six characters out of \<open>8 9 A B C D E F\<close>.
\<close>

theorem Boom_init_particles:
  assumes "unit_draws rnd"
  shows "length (circles (snd (Boom_init rnd (n, Boom_new origin0 count0 area0))))
           = (case count0 of None \<Rightarrow> 10 | Some k \<Rightarrow> k)
         \<and> boom_origin (snd (Boom_init rnd (n, Boom_new origin0 count0 area0))) = origin0
         \<and> (\<forall>c \<in> set (circles (snd (Boom_init rnd (n, Boom_new origin0 count0 area0)))).
               origin c = origin0 \<and> position c = origin0 \<and> renderCount c = 0
               \<and> pi - 1 \<le> angle c \<and> angle c \<le> pi + 1
               \<and> 1 \<le> speed c \<and> speed c \<le> 6
               \<and> (\<exists>s. color c = CHR ''#'' # s \<and> length s = 6
                        \<and> set s \<subseteq> set ''89ABCDEF''))"
  using assms by (rule Boom_init_circles)

theorem Boom_init_particles_witness:
  "unit_draws (\<lambda>k. 1 / 2)
   \<and> circles (snd (Boom_init (\<lambda>k. 1 / 2)
         (0, Boom_new \<lparr> point_x = 100, point_y = 100 \<rparr> (Some 2)
               \<lparr> width = 800, height = 600 \<rparr>)))
      = [ \<lparr> origin = \<lparr> point_x = 100, point_y = 100 \<rparr>,
            position = \<lparr> point_x = 100, point_y = 100 \<rparr>,
            color = ''#CCCCCC'', speed = 7 / 2, angle = pi, renderCount = 0 \<rparr>,
          \<lparr> origin = \<lparr> point_x = 100, point_y = 100 \<rparr>,
            position = \<lparr> point_x = 100, point_y = 100 \<rparr>,
            color = ''#CCCCCC'', speed = 7 / 2, angle = pi, renderCount = 0 \<rparr> ]
   \<and> length (circles (snd (Boom_init (\<lambda>k. 1 / 2)
         (3, Boom_new \<lparr> point_x = 100, point_y = 100 \<rparr> None
               \<lparr> width = 800, height = 600 \<rparr>)))) = 10"
proof -
  have u: "unit_draws (\<lambda>k. 1 / 2)" by (simp add: unit_draws_def)
  have e: "circles (snd (Boom_init (\<lambda>k. 1 / 2)
         (0, Boom_new \<lparr> point_x = 100, point_y = 100 \<rparr> (Some 2)
               \<lparr> width = 800, height = 600 \<rparr>)))
      = [ \<lparr> origin = \<lparr> point_x = 100, point_y = 100 \<rparr>,
            position = \<lparr> point_x = 100, point_y = 100 \<rparr>,
            color = ''#CCCCCC'', speed = 7 / 2, angle = pi, renderCount = 0 \<rparr>,
          \<lparr> origin = \<lparr> point_x = 100, point_y = 100 \<rparr>,
            position = \<lparr> point_x = 100, point_y = 100 \<rparr>,
            color = ''#CCCCCC'', speed = 7 / 2, angle = pi, renderCount = 0 \<rparr> ]"
    by (simp add: Boom_init_def Boom_new_def init_circle_half)
  from Boom_init_particles [OF u, of 3 "\<lparr> point_x = 100, point_y = 100 \<rparr>" None
      "\<lparr> width = 800, height = 600 \<rparr>"] u e
  show ?thesis by simp
qed

section \<open>Exhaustion of a burst\<close>

lemma moved_empty:
  "circles b = [] \<Longrightarrow> circles (moved b) = [] \<and> stop (moved b)"
  by (simp add: moved_circles_def)

lemma funpow_moved_empty:
  "circles b = [] \<Longrightarrow> stop b \<Longrightarrow>
     circles ((moved ^^ k) b) = [] \<and> stop ((moved ^^ k) b)"
  by (induction k) (simp_all add: moved_circles_def)

lemma funpow_moved_stop_empty:
  "stop b \<longrightarrow> circles b = [] \<Longrightarrow>
     stop ((moved ^^ m) b) \<longrightarrow> circles ((moved ^^ m) b) = []"
  by (cases m) simp_all

lemma funpow_moved_stop_stays:
  assumes "stop b \<longrightarrow> circles b = []" and "stop ((moved ^^ m) b)"
  shows "stop ((moved ^^ (m + k)) b)"
proof -
  from funpow_moved_stop_empty [OF assms(1), of m] assms(2)
  have "circles ((moved ^^ m) b) = []" by simp
  from funpow_moved_empty [OF this assms(2), of k]
  show ?thesis by (simp add: funpow_add add.commute)
qed

text \<open>
  Claim C5.  For a burst that was constructed and initialised once: if \<open>stop\<close> is true
  after \<open>m\<close> moves, it is true after any \<open>k\<close> further moves; and \<open>stop\<close> is false
  before the first move.
\<close>

theorem stop_never_reverts:
  "(\<exists>b1 b2. Boom_moves m (snd (Boom_init rnd (n, Boom_new origin0 count0 area0))) = Some b1
       \<and> Boom_moves (m + k) (snd (Boom_init rnd (n, Boom_new origin0 count0 area0))) = Some b2
       \<and> (stop b1 \<longrightarrow> stop b2))
   \<and> \<not> stop (snd (Boom_init rnd (n, Boom_new origin0 count0 area0)))"
proof -
  let ?b = "snd (Boom_init rnd (n, Boom_new origin0 count0 area0))"
  have fresh: "\<not> stop ?b"
    by (simp add: Boom_init_fields) (simp add: Boom_new_def)
  then have "stop ?b \<longrightarrow> circles ?b = []" by simp
  from funpow_moved_stop_stays [OF this, of m k]
  have "stop ((moved ^^ m) ?b) \<longrightarrow> stop ((moved ^^ (m + k)) ?b)" by blast
  with fresh show ?thesis by (simp add: Boom_moves_moved)
qed

theorem stop_never_reverts_witness:
  "\<exists>b1 b2.
     Boom_moves 1 (snd (Boom_init (\<lambda>k. 1 / 2)
         (0, Boom_new \<lparr> point_x = 100, point_y = 700 \<rparr> (Some 1)
               \<lparr> width = 800, height = 600 \<rparr>))) = Some b1
     \<and> Boom_moves (1 + 1) (snd (Boom_init (\<lambda>k. 1 / 2)
         (0, Boom_new \<lparr> point_x = 100, point_y = 700 \<rparr> (Some 1)
               \<lparr> width = 800, height = 600 \<rparr>))) = Some b2
     \<and> stop b1 \<and> stop b2"
proof -
  let ?b = "snd (Boom_init (\<lambda>k. 1 / 2)
         (0, Boom_new \<lparr> point_x = 100, point_y = 700 \<rparr> (Some 1)
               \<lparr> width = 800, height = 600 \<rparr>))"
  have b: "?b = \<lparr> boom_origin = \<lparr> point_x = 100, point_y = 700 \<rparr>, circleCount = 1,
                  area = \<lparr> width = 800, height = 600 \<rparr>, stop = False,
                  circles = [\<lparr> origin = \<lparr> point_x = 100, point_y = 700 \<rparr>,
                               position = \<lparr> point_x = 100, point_y = 700 \<rparr>,
                               color = ''#CCCCCC'', speed = 7 / 2, angle = pi,
                               renderCount = 0 \<rparr>] \<rparr>"
    by (simp add: Boom_init_def Boom_new_def init_circle_half)
  have s: "stop (moved ?b)"
    unfolding b by (simp add: moved_circles_def in_area_def out_of_area_def Circle_move_def)
  from stop_never_reverts [of 1 "\<lambda>k. 1 / 2" 0 "\<lparr> point_x = 100, point_y = 700 \<rparr>" "Some 1"
      "\<lparr> width = 800, height = 600 \<rparr>" 1]
  obtain b1 b2 where
    "Boom_moves 1 ?b = Some b1" "Boom_moves (1 + 1) ?b = Some b2" "stop b1 \<longrightarrow> stop b2"
    by blast
  moreover from this(1) s have "stop b1" by (simp add: Boom_move_moved)
  ultimately show ?thesis by blast
qed

section \<open>The animation loop\<close>

lemma run_loop_prefix:
  "n \<le> length bs \<Longrightarrow>
   run_loop (int n - 1) bs = Some (stepped_booms (take n bs) @ drop n bs)"
proof (induction n arbitrary: bs)
  case 0
  show ?case by (subst run_loop.simps) (simp add: stepped_booms_def)
next
  case (Suc n)
  then have n: "n < length bs" by simp
  have tk: "take (Suc n) bs = take n bs @ [bs ! n]"
    using n by (simp add: take_Suc_conv_app_nth)
  show ?case
  proof (cases "stop (bs ! n)")
    case True
    let ?bs' = "splice1 n bs"
    have len: "n \<le> length ?bs'" using n by (simp add: splice1_def)
    have "run_loop (int (Suc n) - 1) bs = run_loop (int n - 1) ?bs'"
      using n True by (subst run_loop.simps) (simp add: Let_def)
    also have "\<dots> = Some (stepped_booms (take n ?bs') @ drop n ?bs')"
      using Suc.IH [OF len] .
    also have "take n ?bs' = take n bs" using n by (simp add: splice1_def)
    also have "drop n ?bs' = drop (Suc n) bs" using n by (simp add: splice1_def)
    finally show ?thesis using True by (simp add: tk stepped_booms_def)
  next
    case False
    let ?bs' = "bs [n := moved (bs ! n)]"
    have len: "n \<le> length ?bs'" using n by simp
    have "run_loop (int (Suc n) - 1) bs = run_loop (int n - 1) ?bs'"
      using n False by (subst run_loop.simps) (simp add: Let_def Boom_move_moved)
    also have "\<dots> = Some (stepped_booms (take n ?bs') @ drop n ?bs')"
      using Suc.IH [OF len] .
    also have "take n ?bs' = take n bs" by simp
    also have "drop n ?bs' = moved (bs ! n) # drop (Suc n) bs"
      using n by (simp add: Cons_nth_drop_Suc [symmetric] upd_conv_take_nth_drop)
    finally show ?thesis using False by (simp add: tk stepped_booms_def)
  qed
qed

lemma run_loop_all:
  "run_loop (int (length bs) - 1) bs = Some (stepped_booms bs)"
  using run_loop_prefix [of "length bs" bs] by simp

lemma run_empty:
  "booms (effects w) = [] \<Longrightarrow>
     run w = Some (stopAnimation (w \<lparr> effects := (effects w) \<lparr> running := True \<rparr> \<rparr>))"
  by (simp add: run_def)

lemma run_nonempty:
  "booms (effects w) \<noteq> [] \<Longrightarrow>
     run w = Some (w \<lparr> callback_id := callback_id w + 1,
                       callbacks := callbacks w @ [callback_id w + 1],
                       effects := (effects w)
                         \<lparr> running := True, animationId := Some (callback_id w + 1),
                           booms := stepped_booms (booms (effects w)) \<rparr> \<rparr>)"
  by (simp add: run_def requestAnimationFrame_def Let_def run_loop_all)

lemma frame_Idle: "Idle w \<Longrightarrow> frame w = Some w"
  by (simp add: frame_def Idle_def)

lemma frame_Running_empty:
  assumes "Running w" and "booms (effects w) = []"
  shows "\<exists>w'. frame w = Some w' \<and> Idle w' \<and> callback_id w' = callback_id w"
proof -
  from assms(1) obtain h where h: "h \<noteq> 0" "callbacks w = [h]" "animationId (effects w) = Some h"
    by (auto simp: Running_def)
  show ?thesis
    using h assms(2)
    by (simp add: frame_def cancelAnimationFrame_def run_empty stopAnimation_def Idle_def)
qed

lemma frame_Running_nonempty:
  assumes "Running w" and "booms (effects w) \<noteq> []"
  shows "\<exists>w'. frame w = Some w' \<and> Running w'
            \<and> booms (effects w') = stepped_booms (booms (effects w))
            \<and> callbacks w' = [callback_id w + 1]"
proof -
  from assms(1) obtain h where h: "h \<noteq> 0" "callbacks w = [h]" "animationId (effects w) = Some h"
    by (auto simp: Running_def)
  show ?thesis
    using h assms(2)
    by (simp add: frame_def cancelAnimationFrame_def run_nonempty Running_def)
qed

lemma handlePageHide_Idle:
  "Idle w \<or> Running w \<Longrightarrow> Idle (handlePageHide w)"
  by (auto simp: handlePageHide_def stopAnimation_def Idle_def Running_def
      cancelAnimationFrame_def split: option.splits)

lemma handleResize_keeps:
  "booms (effects (handleResize w)) = booms (effects w)"
  "running (effects (handleResize w)) = running (effects w)"
  "animationId (effects (handleResize w)) = animationId (effects w)"
  "callbacks (handleResize w) = callbacks w"
  "callback_id (handleResize w) = callback_id w"
  "random_calls (handleResize w) = random_calls w"
  "innerWidth (handleResize w) = innerWidth w"
  "innerHeight (handleResize w) = innerHeight w"
  "globalWidth (effects (handleResize w)) = innerWidth w"
  "globalHeight (effects (handleResize w)) = innerHeight w"
  "computerCanvas (effects (handleResize w))
     = \<lparr> canvas_width = innerWidth w, canvas_height = innerHeight w \<rparr>"
  "renderCanvas (effects (handleResize w))
     = \<lparr> canvas_width = innerWidth w, canvas_height = innerHeight w \<rparr>"
  by (simp_all add: handleResize_def Let_def)

lemma new_boom_fields:
  "area (new_boom rnd x0 y0 w)
     = \<lparr> width = globalWidth (effects w), height = globalHeight (effects w) \<rparr>"
  "stop (new_boom rnd x0 y0 w) = False"
  "length (circles (new_boom rnd x0 y0 w)) = 10"
  "boom_origin (new_boom rnd x0 y0 w) = \<lparr> point_x = x0, point_y = y0 \<rparr>"
  by (simp_all add: new_boom_def Boom_init_fields Boom_new_def)

lemma Boom_init_new:
  "Boom_init rnd (random_calls w,
       Boom_new \<lparr> point_x = x0, point_y = y0 \<rparr> None
         \<lparr> width = globalWidth (effects w), height = globalHeight (effects w) \<rparr>)
     = (random_calls w + 80, new_boom rnd x0 y0 w)"
proof -
  let ?b = "Boom_new \<lparr> point_x = x0, point_y = y0 \<rparr> None
         \<lparr> width = globalWidth (effects w), height = globalHeight (effects w) \<rparr>"
  have c: "circleCount ?b = 10" by (simp add: Boom_new_def)
  have "fst (Boom_init rnd (random_calls w, ?b)) = random_calls w + 80"
    by (simp add: Boom_init_fields c)
  then show ?thesis
    unfolding new_boom_def by (metis prod.collapse)
qed

lemma handleMouseDown_running:
  "running (effects w) \<Longrightarrow>
     handleMouseDown rnd x0 y0 w =
       Some (w \<lparr> random_calls := random_calls w + 80,
                 effects := (effects w)
                    \<lparr> booms := booms (effects w) @ [new_boom rnd x0 y0 w] \<rparr> \<rparr>)"
  by (simp add: handleMouseDown_def Boom_init_new Let_def)

lemma stepped_booms_snoc_new:
  "stepped_booms (bs @ [new_boom rnd x0 y0 w])
     = stepped_booms bs @ [moved (new_boom rnd x0 y0 w)]"
  by (simp add: stepped_booms_def new_boom_fields)

lemma handleMouseDown_not_running:
  "\<not> running (effects w) \<Longrightarrow>
     handleMouseDown rnd x0 y0 w =
       Some (w \<lparr> random_calls := random_calls w + 80,
                 callback_id := callback_id w + 1,
                 callbacks := callbacks w @ [callback_id w + 1],
                 effects := (effects w)
                    \<lparr> running := True, animationId := Some (callback_id w + 1),
                      booms := stepped_booms (booms (effects w))
                                 @ [moved (new_boom rnd x0 y0 w)] \<rparr> \<rparr>)"
  by (simp add: handleMouseDown_def Boom_init_new Let_def run_nonempty stepped_booms_snoc_new)

lemma Idle_not_Running: "Idle w \<Longrightarrow> \<not> running (effects w) \<and> callbacks w = []"
  by (simp add: Idle_def)

lemma Running_running: "Running w \<Longrightarrow> running (effects w) \<and> length (callbacks w) = 1"
  by (auto simp: Running_def)

lemma handleMouseDown_state:
  assumes "Idle w \<or> Running w"
  shows "\<exists>w'. handleMouseDown rnd x0 y0 w = Some w' \<and> Running w'"
proof (cases "running (effects w)")
  case True
  with assms have "Running w" by (auto simp: Idle_def)
  then show ?thesis
    using True by (auto simp: handleMouseDown_running Running_def)
next
  case False
  with assms have "Idle w" by (auto simp: Running_def)
  then show ?thesis
    using False by (simp add: handleMouseDown_not_running Running_def Idle_def)
qed

lemma handleResize_state:
  "Idle w \<Longrightarrow> Idle (handleResize (w \<lparr> innerWidth := nw, innerHeight := nh \<rparr>))"
  "Running w \<Longrightarrow> Running (handleResize (w \<lparr> innerWidth := nw, innerHeight := nh \<rparr>))"
  by (simp_all add: Idle_def Running_def handleResize_keeps)

lemma frame_state:
  assumes "Idle w \<or> Running w"
  shows "\<exists>w'. frame w = Some w' \<and> (Idle w' \<or> Running w')"
  using assms frame_Idle [of w] frame_Running_empty [of w] frame_Running_nonempty [of w]
  by (cases "booms (effects w) = []") auto

lemma handle_event_state:
  assumes "Idle w \<or> Running w"
  shows "\<exists>w'. handle_event rnd e w = Some w' \<and> (Idle w' \<or> Running w')"
proof (cases e)
  case (MouseDown x0 y0)
  with handleMouseDown_state [OF assms, of rnd x0 y0] show ?thesis by auto
next
  case PageHide
  with handlePageHide_Idle [OF assms] show ?thesis by simp
next
  case (Resize nw nh)
  with assms handleResize_state [where w = w and nw = nw and nh = nh] show ?thesis by auto
next
  case Frame
  with frame_state [OF assms] show ?thesis by simp
qed

lemma page_loaded_Idle: "Idle (page_loaded w0 h0 id0 n0)"
  by (simp add: page_loaded_def Idle_def handleResize_keeps)

lemma reachable_state: "reachable rnd w \<Longrightarrow> Idle w \<or> Running w"
proof (induction rule: reachable.induct)
  case (loaded w0 h0 id0 n0)
  show ?case by (simp add: page_loaded_Idle)
next
  case (event w e w')
  with handle_event_state [of w rnd e] show ?case by auto
qed

text \<open>
  Claim C6.  In every state of the page that events can produce, at most one animation
  frame callback is outstanding, and one is outstanding exactly when \<open>running\<close> is true;
  every event is handled without an exception and leaves at most one callback.  A press
  while \<open>running\<close> is true appends the new burst and registers nothing (the callbacks and
  the callback identifier are unchanged); a press while \<open>running\<close> is false calls \<open>run\<close>,
  which registers the one callback and sets \<open>running\<close>.
\<close>

theorem one_frame_request_outstanding:
  assumes "reachable rnd w"
  shows "length (callbacks w) \<le> 1
         \<and> (running (effects w) \<longleftrightarrow> callbacks w \<noteq> [])
         \<and> (\<exists>w'. handle_event rnd e w = Some w' \<and> length (callbacks w') \<le> 1)
         \<and> (\<exists>w'. handleMouseDown rnd x0 y0 w = Some w'
               \<and> (running (effects w) \<longrightarrow>
                     callbacks w' = callbacks w \<and> callback_id w' = callback_id w
                     \<and> booms (effects w') = booms (effects w) @ [new_boom rnd x0 y0 w]
                     \<and> running (effects w'))
               \<and> (\<not> running (effects w) \<longrightarrow>
                     callbacks w' = [callback_id w + 1] \<and> running (effects w')
                     \<and> animationId (effects w') = Some (callback_id w + 1)))"
proof -
  have st: "Idle w \<or> Running w" using assms by (rule reachable_state)
  then have one: "length (callbacks w) \<le> 1"
    by (auto simp: Idle_def Running_def)
  from st have iff: "running (effects w) \<longleftrightarrow> callbacks w \<noteq> []"
    by (auto simp: Idle_def Running_def)
  from handle_event_state [OF st, of rnd e]
  have ev: "\<exists>w'. handle_event rnd e w = Some w' \<and> length (callbacks w') \<le> 1"
    by (auto simp: Idle_def Running_def)
  have md: "\<exists>w'. handleMouseDown rnd x0 y0 w = Some w'
               \<and> (running (effects w) \<longrightarrow>
                     callbacks w' = callbacks w \<and> callback_id w' = callback_id w
                     \<and> booms (effects w') = booms (effects w) @ [new_boom rnd x0 y0 w]
                     \<and> running (effects w'))
               \<and> (\<not> running (effects w) \<longrightarrow>
                     callbacks w' = [callback_id w + 1] \<and> running (effects w')
                     \<and> animationId (effects w') = Some (callback_id w + 1))"
  proof (cases "running (effects w)")
    case True
    then show ?thesis by (simp add: handleMouseDown_running)
  next
    case False
    with iff have "callbacks w = []" by simp
    with False show ?thesis by (simp add: handleMouseDown_not_running)
  qed
  from one iff ev md show ?thesis by blast
qed

theorem one_frame_request_outstanding_witness:
  "\<exists>w. handle_event (\<lambda>k. 1 / 2) (MouseDown 100 100) (page_loaded 800 600 0 0) = Some w
      \<and> reachable (\<lambda>k. 1 / 2) w
      \<and> running (effects w) \<and> callbacks w = [1]
      \<and> (\<exists>w'. handleMouseDown (\<lambda>k. 1 / 2) 200 200 w = Some w'
             \<and> callbacks w' = [1] \<and> callback_id w' = 1 \<and> length (booms (effects w')) = 2)"
proof -
  let ?r = "\<lambda>k::nat. 1 / 2 :: real"
  let ?w0 = "page_loaded 800 600 0 0"
  have r0: "reachable ?r ?w0" by (rule reachable.loaded)
  have nr: "\<not> running (effects ?w0)" "callback_id ?w0 = 0" "booms (effects ?w0) = []"
    by (simp_all add: page_loaded_def handleResize_keeps)
  from one_frame_request_outstanding [OF r0, of "MouseDown 100 100" 100 100] nr
  obtain w where w: "handleMouseDown ?r 100 100 ?w0 = Some w" "callbacks w = [1]"
    "running (effects w)"
    by auto
  then have r1: "reachable ?r w"
    using reachable.event [OF r0, of "MouseDown 100 100" w] by simp
  have b: "length (booms (effects w)) = 1" "callback_id w = 1"
    using w(1) nr by (simp_all add: handleMouseDown_not_running stepped_booms_def) auto
  from one_frame_request_outstanding [OF r1, of Frame 200 200] w(2,3) b
  obtain w' where "handleMouseDown ?r 200 200 w = Some w'" "callbacks w' = [1]"
    "callback_id w' = 1" "length (booms (effects w')) = 2"
    by auto
  with w r1 show ?thesis by auto
qed

lemma frame_after_resize:
  assumes "Idle w \<or> Running w"
  shows "\<exists>w1 w2. frame (handleResize (w \<lparr> innerWidth := nw, innerHeight := nh \<rparr>)) = Some w1
           \<and> frame w = Some w2 \<and> booms (effects w1) = booms (effects w2)"
proof -
  let ?w' = "handleResize (w \<lparr> innerWidth := nw, innerHeight := nh \<rparr>)"
  have bs: "booms (effects ?w') = booms (effects w)" by (simp add: handleResize_keeps)
  from assms show ?thesis
  proof
    assume i: "Idle w"
    then have "Idle ?w'" by (rule handleResize_state)
    with i bs show ?thesis by (simp add: frame_Idle)
  next
    assume r: "Running w"
    then have r': "Running ?w'" by (rule handleResize_state)
    show ?thesis
    proof (cases "booms (effects w) = []")
      case True
      with frame_Running_empty [OF r] frame_Running_empty [OF r'] bs
      show ?thesis by (auto simp: Idle_def)
    next
      case False
      with frame_Running_nonempty [OF r] frame_Running_nonempty [OF r'] bs
      show ?thesis by auto
    qed
  qed
qed

text \<open>
  Claim C7.  In every reachable state, a resize of the window to \<open>nw\<close> by \<open>nh\<close> changes,
  in the controller, only \<open>globalWidth\<close>, \<open>globalHeight\<close> and the sizes of the two
  canvases.  The bursts, each with the area stored at its creation, are unchanged, and the
  next animation frame leaves the same bursts as it would have left without the resize.
  A burst created by a press after the resize has the area \<open>nw\<close> by \<open>nh\<close>; while the
  loop is running it is appended after the unchanged earlier bursts.
\<close>

theorem resize_keeps_burst_bounds:
  assumes "reachable rnd w"
  shows "\<exists>w'. handle_event rnd (Resize nw nh) w = Some w'
           \<and> effects w' = (effects w)
                 \<lparr> globalWidth := nw, globalHeight := nh,
                   renderCanvas := \<lparr> canvas_width = nw, canvas_height = nh \<rparr>,
                   computerCanvas := \<lparr> canvas_width = nw, canvas_height = nh \<rparr> \<rparr>
           \<and> booms (effects w') = booms (effects w)
           \<and> callbacks w' = callbacks w
           \<and> (\<exists>w1 w2. frame w' = Some w1 \<and> frame w = Some w2
                  \<and> booms (effects w1) = booms (effects w2))
           \<and> (\<exists>w''. handleMouseDown rnd x0 y0 w' = Some w''
                  \<and> booms (effects w'') \<noteq> []
                  \<and> area (last (booms (effects w''))) = \<lparr> width = nw, height = nh \<rparr>
                  \<and> (running (effects w) \<longrightarrow>
                        butlast (booms (effects w'')) = booms (effects w)))"
proof -
  let ?w' = "handleResize (w \<lparr> innerWidth := nw, innerHeight := nh \<rparr>)"
  have st: "Idle w \<or> Running w" using assms by (rule reachable_state)
  have ev: "handle_event rnd (Resize nw nh) w = Some ?w'" by simp
  have eff: "effects ?w' = (effects w)
                 \<lparr> globalWidth := nw, globalHeight := nh,
                   renderCanvas := \<lparr> canvas_width = nw, canvas_height = nh \<rparr>,
                   computerCanvas := \<lparr> canvas_width = nw, canvas_height = nh \<rparr> \<rparr>"
    by (simp add: handleResize_def Let_def)
  have bs: "booms (effects ?w') = booms (effects w)" "callbacks ?w' = callbacks w"
    by (simp_all add: handleResize_keeps)
  have ar: "area (new_boom rnd x0 y0 ?w') = \<lparr> width = nw, height = nh \<rparr>"
    by (simp add: new_boom_fields handleResize_keeps)
  have md: "\<exists>w''. handleMouseDown rnd x0 y0 ?w' = Some w''
                  \<and> booms (effects w'') \<noteq> []
                  \<and> area (last (booms (effects w''))) = \<lparr> width = nw, height = nh \<rparr>
                  \<and> (running (effects w) \<longrightarrow>
                        butlast (booms (effects w'')) = booms (effects w))"
  proof (cases "running (effects w)")
    case True
    then have "running (effects ?w')" by (simp add: handleResize_keeps)
    from handleMouseDown_running [OF this, of rnd x0 y0] ar bs show ?thesis by simp
  next
    case False
    then have "\<not> running (effects ?w')" by (simp add: handleResize_keeps)
    from handleMouseDown_not_running [OF this, of rnd x0 y0] ar False show ?thesis by simp
  qed
  note fr = frame_after_resize [OF st, where nw = nw and nh = nh]
  show ?thesis
    by (intro exI [of _ ?w'] conjI ev eff bs fr md)
qed

theorem resize_keeps_burst_bounds_witness:
  "\<exists>w. handle_event (\<lambda>k. 1 / 2) (MouseDown 100 100) (page_loaded 800 600 0 0) = Some w
      \<and> reachable (\<lambda>k. 1 / 2) w
      \<and> map area (booms (effects w)) = [\<lparr> width = 800, height = 600 \<rparr>]
      \<and> (\<exists>w'. handle_event (\<lambda>k. 1 / 2) (Resize 400 300) w = Some w'
             \<and> map area (booms (effects w')) = [\<lparr> width = 800, height = 600 \<rparr>]
             \<and> globalWidth (effects w') = 400 \<and> globalHeight (effects w') = 300
             \<and> (\<exists>w''. handleMouseDown (\<lambda>k. 1 / 2) 200 200 w' = Some w''
                    \<and> map area (booms (effects w''))
                        = [\<lparr> width = 800, height = 600 \<rparr>, \<lparr> width = 400, height = 300 \<rparr>]))"
proof -
  let ?r = "\<lambda>k::nat. 1 / 2 :: real"
  let ?start = "page_loaded 800 600 0 0"
  have r0: "reachable ?r ?start" by (rule reachable.loaded)
  have nr: "\<not> running (effects ?start)" "booms (effects ?start) = []"
    "globalWidth (effects ?start) = 800" "globalHeight (effects ?start) = 600"
    by (simp_all add: page_loaded_def handleResize_keeps)
  let ?first = "?start \<lparr> random_calls := random_calls ?start + 80,
                 callback_id := callback_id ?start + 1,
                 callbacks := callbacks ?start @ [callback_id ?start + 1],
                 effects := (effects ?start)
                    \<lparr> running := True, animationId := Some (callback_id ?start + 1),
                      booms := stepped_booms (booms (effects ?start))
                                 @ [moved (new_boom ?r 100 100 ?start)] \<rparr> \<rparr>"
  have w: "handle_event ?r (MouseDown 100 100) ?start = Some ?first"
    unfolding handle_event.simps by (rule handleMouseDown_not_running [OF nr(1)])
  have r1: "reachable ?r ?first"
    using reachable.event [OF r0 w] .
  have a: "map area (booms (effects ?first)) = [\<lparr> width = 800, height = 600 \<rparr>]"
    "running (effects ?first)"
    using nr by (simp_all add: stepped_booms_def new_boom_fields)
  from resize_keeps_burst_bounds [OF r1, of 400 300 200 200]
  obtain w' w'' where w':
    "handle_event ?r (Resize 400 300) ?first = Some w'"
    "booms (effects w') = booms (effects ?first)"
    "effects w' = (effects ?first)
                 \<lparr> globalWidth := 400, globalHeight := 300,
                   renderCanvas := \<lparr> canvas_width = 400, canvas_height = 300 \<rparr>,
                   computerCanvas := \<lparr> canvas_width = 400, canvas_height = 300 \<rparr> \<rparr>"
    "handleMouseDown ?r 200 200 w' = Some w''"
    "booms (effects w'') \<noteq> []"
    "area (last (booms (effects w''))) = \<lparr> width = 400, height = 300 \<rparr>"
    "running (effects ?first) \<longrightarrow> butlast (booms (effects w'')) = booms (effects ?first)"
    by (elim exE conjE) (rule that)
  have bl: "butlast (booms (effects w'')) = booms (effects ?first)"
    by (rule mp [OF w'(7) a(2)])
  have "map area (butlast (booms (effects w'')) @ [last (booms (effects w''))])
          = map area (butlast (booms (effects w''))) @ [area (last (booms (effects w'')))]"
    by simp
  then have "map area (booms (effects w''))
               = map area (butlast (booms (effects w''))) @ [area (last (booms (effects w'')))]"
    by (simp only: append_butlast_last_id [OF w'(5)])
  then have m2: "map area (booms (effects w''))
       = [\<lparr> width = 800, height = 600 \<rparr>, \<lparr> width = 400, height = 300 \<rparr>]"
    by (simp only: bl a(1) w'(6) append.simps)
  have m1: "map area (booms (effects w')) = [\<lparr> width = 800, height = 600 \<rparr>]"
    by (simp only: w'(2) a(1))
  have g: "globalWidth (effects w') = 400" "globalHeight (effects w') = 300"
    unfolding w'(3) by simp_all
  have inner: "\<exists>w''. handleMouseDown ?r 200 200 w' = Some w''
                    \<and> map area (booms (effects w''))
                        = [\<lparr> width = 800, height = 600 \<rparr>, \<lparr> width = 400, height = 300 \<rparr>]"
    by (intro exI [of _ w''] conjI w'(4) m2)
  have mid: "\<exists>w'. handle_event ?r (Resize 400 300) ?first = Some w'
             \<and> map area (booms (effects w')) = [\<lparr> width = 800, height = 600 \<rparr>]
             \<and> globalWidth (effects w') = 400 \<and> globalHeight (effects w') = 300
             \<and> (\<exists>w''. handleMouseDown ?r 200 200 w' = Some w''
                    \<and> map area (booms (effects w''))
                        = [\<lparr> width = 800, height = 600 \<rparr>, \<lparr> width = 400, height = 300 \<rparr>])"
    by (intro exI [of _ w'] conjI w'(1) m1 g inner)
  show ?thesis
    by (intro exI [of _ ?first] conjI w r1 a(1) mid)
qed

section \<open>Every burst ends\<close>





lemma area_funpow_moved [simp]: "area ((moved ^^ n) b) = area b"
  by (induction n) simp_all







end
